theory Spec2Isabelle
  imports Complex_Main
begin

section \<open>Poisson surface reconstruction: the implicit-field pipeline\<close>

text \<open>
  The development embeds \<^verbatim>\<open>src/poisson_surface_reconstruction.cpp\<close>. The C++ works on
  Eigen matrices of \<^verbatim>\<open>double\<close>; here a \<^verbatim>\<open>double\<close> is a real number and every operation
  is exact, so rounding, overflow to infinity and NaN payloads are not part of the model.
  The one place where the source leaves the finite numbers, the quotient \<^verbatim>\<open>0.0/0.0\<close> of
  the grid dimensions when all points coincide, is a branch of the model of its own.
  Dense vectors (\<^verbatim>\<open>Eigen::VectorXd\<close>) are lists of reals, an \<^verbatim>\<open>n x 3\<close> matrix
  (\<^verbatim>\<open>P\<close>, \<^verbatim>\<open>N\<close>, \<^verbatim>\<open>x\<close>, \<^verbatim>\<open>V\<close>) is a list of rows.
\<close>

subsection \<open>Outcomes\<close>

text \<open>
  The function has return type \<^verbatim>\<open>void\<close> and contains no \<^verbatim>\<open>throw\<close>, no status code
  and no early \<^verbatim>\<open>return\<close>. A call either runs to its end, or it reaches an operation
  whose behaviour C++ or Eigen leave undefined (a reduction over an empty matrix, the
  conversion of NaN to \<^verbatim>\<open>int\<close>, a product of mismatched sizes; a debug build of Eigen
  aborts on the first and the last).
\<close>

datatype 'a outcome = Returns 'a | Undefined

subsection \<open>Rows, columns and coefficient reductions\<close>

type_synonym vec3 = "real \<times> real \<times> real"

text \<open>\<^verbatim>\<open>M.col(i)\<close> of a matrix with three columns.\<close>

definition col :: "nat \<Rightarrow> vec3 list \<Rightarrow> real list" where
  "col i M = map (\<lambda>(a, b, c). if i = 0 then a else if i = 1 then b else c) M"

text \<open>
  \<^verbatim>\<open>maxCoeff()\<close> and \<^verbatim>\<open>minCoeff()\<close> of a non-empty vector; the caller's guard keeps
  the empty vector away from them.
\<close>

definition maxCoeff :: "real list \<Rightarrow> real" where
  "maxCoeff xs = fold max (tl xs) (hd xs)"

definition minCoeff :: "real list \<Rightarrow> real" where
  "minCoeff xs = fold min (tl xs) (hd xs)"

text \<open>The implicit conversion \<^verbatim>\<open>double\<close> to \<^verbatim>\<open>int\<close>: the fractional part is discarded.\<close>

definition to_int :: "real \<Rightarrow> int" where
  "to_int d = (if 0 \<le> d then \<lfloor>d\<rfloor> else \<lceil>d\<rceil>)"

subsection \<open>Grid construction (lines 29 to 44)\<close>

record grid =
  grid_corner :: vec3
  grid_h :: real
  grid_nx :: nat
  grid_ny :: nat
  grid_nz :: nat

text \<open>
  \<^verbatim>\<open>(P.colwise().maxCoeff()-P.colwise().minCoeff()).maxCoeff()\<close>: the largest side of
  the bounding box.
\<close>

definition max_extent :: "vec3 list \<Rightarrow> real" where
  "max_extent P =
     maxCoeff [maxCoeff (col 0 P) - minCoeff (col 0 P),
               maxCoeff (col 1 P) - minCoeff (col 1 P),
               maxCoeff (col 2 P) - minCoeff (col 2 P)]"

definition pad :: real where
  "pad = 8"

text \<open>\<^verbatim>\<open>double h = max_extent/double(30+2*pad);\<close>\<close>

definition spacing :: "vec3 list \<Rightarrow> real" where
  "spacing P = max_extent P / (30 + 2 * pad)"

text \<open>
  \<^verbatim>\<open>nx = std::max((P.col(0).maxCoeff()-P.col(0).minCoeff()+(2.*pad)*h)/h,3.);\<close> and its
  two siblings: the maximum is taken in \<^verbatim>\<open>double\<close>, the assignment to the \<^verbatim>\<open>int\<close>
  converts. The value converted is at least 3, so the \<^verbatim>\<open>int\<close> is kept as a natural number.
\<close>

definition dimension :: "nat \<Rightarrow> vec3 list \<Rightarrow> nat" where
  "dimension i P =
     nat (to_int (max ((maxCoeff (col i P) - minCoeff (col i P) + (2 * pad) * spacing P)
                        / spacing P) 3))"

text \<open>
  With an empty \<^verbatim>\<open>P\<close> the reductions have nothing to reduce. With \<^verbatim>\<open>h = 0\<close> the three
  quotients are \<^verbatim>\<open>0.0/0.0\<close>, \<^verbatim>\<open>std::max(NaN, 3.)\<close> is NaN (the comparison \<^verbatim>\<open>NaN < 3.\<close> is
  false, so the first argument is returned), and NaN has no \<^verbatim>\<open>int\<close> value.
\<close>

definition grid_of :: "vec3 list \<Rightarrow> grid outcome" where
  "grid_of P =
     (if P = [] then Undefined
      else if spacing P = 0 then Undefined
      else Returns
        \<lparr>grid_corner = (minCoeff (col 0 P) - pad * spacing P,
                        minCoeff (col 1 P) - pad * spacing P,
                        minCoeff (col 2 P) - pad * spacing P),
         grid_h = spacing P,
         grid_nx = dimension 0 P,
         grid_ny = dimension 1 P,
         grid_nz = dimension 2 P\<rparr>)"

subsection \<open>The grid as the specification words it\<close>








subsection \<open>Grid nodes (lines 46 to 59)\<close>

text \<open>\<^verbatim>\<open>corner + h*Eigen::RowVector3d(i,j,k)\<close>: sum and scaling of rows.\<close>

fun vadd :: "vec3 \<Rightarrow> vec3 \<Rightarrow> vec3" where
  "vadd (a1, a2, a3) (b1, b2, b3) = (a1 + b1, a2 + b2, a3 + b3)"

fun smul :: "real \<Rightarrow> vec3 \<Rightarrow> vec3" where
  "smul s (a1, a2, a3) = (s * a1, s * a2, s * a3)"

text \<open>\<^verbatim>\<open>const auto ind = i + nx*(j + k * ny);\<close>\<close>

definition ind :: "nat \<Rightarrow> nat \<Rightarrow> nat \<Rightarrow> nat \<Rightarrow> nat \<Rightarrow> nat" where
  "ind nx ny i j k = i + nx * (j + k * ny)"

text \<open>
  The loop nest over \<open>i\<close>, \<open>j\<close>, \<open>k\<close>, each iteration assigning one row of \<open>x\<close>. The
  matrix \<open>x\<close> is declared without initial values: \<open>x0\<close> stands for whatever it holds.
\<close>

definition node_positions :: "grid \<Rightarrow> vec3 list \<Rightarrow> vec3 list" where
  "node_positions g x0 =
     fold (\<lambda>i. fold (\<lambda>j. fold (\<lambda>k x.
         x[ind (grid_nx g) (grid_ny g) i j k :=
             vadd (grid_corner g) (smul (grid_h g) (real i, real j, real k))])
       [0..<grid_nz g]) [0..<grid_ny g]) [0..<grid_nx g] x0"

text \<open>
  The subscripts the loop nest visits, in its order, and the row it assigns at each of
  them: the trace of the assignments \<^verbatim>\<open>x.row(ind) = ...\<close>.
\<close>

definition subscripts :: "nat \<Rightarrow> nat \<Rightarrow> nat \<Rightarrow> (nat \<times> nat \<times> nat) list" where
  "subscripts a b c = List.product [0..<a] (List.product [0..<b] [0..<c])"

definition node_writes :: "grid \<Rightarrow> nat list" where
  "node_writes g =
     map (\<lambda>(i, j, k). ind (grid_nx g) (grid_ny g) i j k)
       (subscripts (grid_nx g) (grid_ny g) (grid_nz g))"

definition node_count :: "grid \<Rightarrow> nat" where
  "node_count g = grid_nx g * grid_ny g * grid_nz g"

subsection \<open>Matrices and vectors of Eigen\<close>

text \<open>
  A sparse matrix is its shape and its coefficients; how Eigen stores them plays no part.
\<close>

record smatrix =
  nrows :: nat
  ncols :: nat
  coeff :: "nat \<Rightarrow> nat \<Rightarrow> real"

text \<open>
  \<^verbatim>\<open>Eigen::SparseMatrix<double> W(r, c);\<close> followed by a call that fills \<open>W\<close>: the caller
  fixes the shape, the callee the coefficients.
\<close>

definition filled :: "nat \<Rightarrow> nat \<Rightarrow> (nat \<Rightarrow> nat \<Rightarrow> real) \<Rightarrow> smatrix" where
  "filled r c f = \<lparr>nrows = r, ncols = c, coeff = f\<rparr>"

definition transpose_sm :: "smatrix \<Rightarrow> smatrix" where
  "transpose_sm A = \<lparr>nrows = ncols A, ncols = nrows A, coeff = (\<lambda>i j. coeff A j i)\<rparr>"

definition mat_mul :: "smatrix \<Rightarrow> smatrix \<Rightarrow> smatrix" where
  "mat_mul A B =
     \<lparr>nrows = nrows A, ncols = ncols B,
      coeff = (\<lambda>i j. \<Sum>k<ncols A. coeff A i k * coeff B k j)\<rparr>"

definition mat_vec :: "smatrix \<Rightarrow> real list \<Rightarrow> real list" where
  "mat_vec A x = map (\<lambda>i. \<Sum>j<ncols A. coeff A i j * x ! j) [0..<nrows A]"

text \<open>Difference of two vectors, inner product and squared Euclidean norm.\<close>

definition vsub :: "real list \<Rightarrow> real list \<Rightarrow> real list" where
  "vsub x y = map (\<lambda>i. x ! i - y ! i) [0..<length x]"

definition dot :: "real list \<Rightarrow> real list \<Rightarrow> real" where
  "dot x y = (\<Sum>i<length x. x ! i * y ! i)"

definition squaredNorm :: "real list \<Rightarrow> real" where
  "squaredNorm x = dot x x"

subsection \<open>The collaborators\<close>

text \<open>
  \<^verbatim>\<open>fd_interpolate\<close> and \<^verbatim>\<open>fd_grad\<close> are declared in headers the file includes and are
  defined elsewhere; the solver and the extraction come from Eigen and libigl. The
  pipeline is modelled for every choice of the four. The first two fill a matrix whose
  shape the caller has declared (the shape section 3 of the specification gives to the
  interpolation matrix and to the gradient matrix), so they are the coefficients they
  write. The solver is
  \<^verbatim>\<open>compute\<close> followed by \<^verbatim>\<open>solve\<close>: it yields a vector and the status that
  \<^verbatim>\<open>solver.info()\<close> would report. The extraction receives \<open>V\<close> and \<open>F\<close> by reference, so
  it is given what they hold and yields what they hold afterwards.
\<close>

datatype ComputationInfo = Success | NumericalIssue | NoConvergence | InvalidInput

type_synonym mesh = "vec3 list \<times> (int \<times> int \<times> int) list"

record collaborators =
  fd_interpolate :: "nat \<Rightarrow> nat \<Rightarrow> nat \<Rightarrow> real \<Rightarrow> vec3 \<Rightarrow> vec3 list \<Rightarrow> nat \<Rightarrow> nat \<Rightarrow> real"
  fd_grad :: "nat \<Rightarrow> nat \<Rightarrow> nat \<Rightarrow> real \<Rightarrow> nat \<Rightarrow> nat \<Rightarrow> real"
  solver :: "smatrix \<Rightarrow> real list \<Rightarrow> real list \<times> ComputationInfo"
  marching_cubes :: "real list \<Rightarrow> vec3 list \<Rightarrow> nat \<Rightarrow> nat \<Rightarrow> nat \<Rightarrow> mesh \<Rightarrow> mesh"

subsection \<open>Staggered samples of the normals (lines 62 to 83)\<close>

definition staggered_Wx :: "collaborators \<Rightarrow> grid \<Rightarrow> vec3 list \<Rightarrow> smatrix" where
  "staggered_Wx c g P =
     filled (length P) ((grid_nx g - 1) * grid_ny g * grid_nz g)
       (fd_interpolate c (grid_nx g - 1) (grid_ny g) (grid_nz g) (grid_h g)
          (vadd (grid_corner g) (grid_h g / 2, 0, 0)) P)"

definition staggered_Wy :: "collaborators \<Rightarrow> grid \<Rightarrow> vec3 list \<Rightarrow> smatrix" where
  "staggered_Wy c g P =
     filled (length P) (grid_nx g * (grid_ny g - 1) * grid_nz g)
       (fd_interpolate c (grid_nx g) (grid_ny g - 1) (grid_nz g) (grid_h g)
          (vadd (grid_corner g) (0, grid_h g / 2, 0)) P)"

definition staggered_Wz :: "collaborators \<Rightarrow> grid \<Rightarrow> vec3 list \<Rightarrow> smatrix" where
  "staggered_Wz c g P =
     filled (length P) (grid_nx g * grid_ny g * (grid_nz g - 1))
       (fd_interpolate c (grid_nx g) (grid_ny g) (grid_nz g - 1) (grid_h g)
          (vadd (grid_corner g) (0, 0, grid_h g / 2)) P)"

text \<open>\<^verbatim>\<open>vx = Wx.transpose() * N.col(0);\<close> and its siblings, then \<^verbatim>\<open>v << vx, vy, vz;\<close>\<close>

definition sample_v :: "collaborators \<Rightarrow> grid \<Rightarrow> vec3 list \<Rightarrow> vec3 list \<Rightarrow> real list" where
  "sample_v c g P N =
     mat_vec (transpose_sm (staggered_Wx c g P)) (col 0 N) @
     mat_vec (transpose_sm (staggered_Wy c g P)) (col 1 N) @
     mat_vec (transpose_sm (staggered_Wz c g P)) (col 2 N)"

subsection \<open>Gradient operator and solve (lines 85 to 93)\<close>

definition staggered_count :: "grid \<Rightarrow> nat" where
  "staggered_count g =
     (grid_nx g - 1) * grid_ny g * grid_nz g + grid_nx g * (grid_ny g - 1) * grid_nz g +
     grid_nx g * grid_ny g * (grid_nz g - 1)"

definition gradient_G :: "collaborators \<Rightarrow> grid \<Rightarrow> smatrix" where
  "gradient_G c g =
     filled (staggered_count g) (node_count g)
       (fd_grad c (grid_nx g) (grid_ny g) (grid_nz g) (grid_h g))"

text \<open>
  \<^verbatim>\<open>solver.compute(G.transpose() * G); g = solver.solve(G.transpose() * v);\<close> The status
  of the solver is never read.
\<close>

definition normal_matrix :: "collaborators \<Rightarrow> grid \<Rightarrow> smatrix" where
  "normal_matrix c g = mat_mul (transpose_sm (gradient_G c g)) (gradient_G c g)"

definition normal_rhs :: "collaborators \<Rightarrow> grid \<Rightarrow> vec3 list \<Rightarrow> vec3 list \<Rightarrow> real list" where
  "normal_rhs c g P N = mat_vec (transpose_sm (gradient_G c g)) (sample_v c g P N)"

definition potential_g :: "collaborators \<Rightarrow> grid \<Rightarrow> vec3 list \<Rightarrow> vec3 list \<Rightarrow> real list" where
  "potential_g c g P N = fst (solver c (normal_matrix c g) (normal_rhs c g P N))"

subsection \<open>Iso-value (lines 96 to 101)\<close>

definition primary_W :: "collaborators \<Rightarrow> grid \<Rightarrow> vec3 list \<Rightarrow> smatrix" where
  "primary_W c g P =
     filled (length P) (node_count g)
       (fd_interpolate c (grid_nx g) (grid_ny g) (grid_nz g) (grid_h g) (grid_corner g) P)"

text \<open>\<^verbatim>\<open>double sigma = (W * g).sum() / n;\<close>\<close>

definition iso_sigma :: "collaborators \<Rightarrow> grid \<Rightarrow> vec3 list \<Rightarrow> real list \<Rightarrow> real" where
  "iso_sigma c g P g0 = sum_list (mat_vec (primary_W c g P) g0) / real (length P)"

text \<open>\<^verbatim>\<open>g = g.array() - sigma;\<close>\<close>

definition calibrated_g :: "collaborators \<Rightarrow> grid \<Rightarrow> vec3 list \<Rightarrow> real list \<Rightarrow> real list" where
  "calibrated_g c g P g0 = map (\<lambda>a. a - iso_sigma c g P g0) g0"

subsection \<open>The whole function (lines 19 to 108)\<close>

text \<open>
  The four matrices the caller passes: \<open>P\<close> and \<open>N\<close> by \<^verbatim>\<open>const\<close> reference, \<open>V\<close> and \<open>F\<close>
  by reference. They are four objects of the caller.
\<close>

record arguments =
  arg_P :: "vec3 list"
  arg_N :: "vec3 list"
  arg_V :: "vec3 list"
  arg_F :: "(int \<times> int \<times> int) list"

text \<open>
  Besides the two undefined cases of the grid, Eigen defines the product
  \<^verbatim>\<open>Wx.transpose() * N.col(0)\<close> only when \<open>N\<close> has as many rows as \<open>Wx\<close>, that is as
  \<open>P\<close>, and \<^verbatim>\<open>W * g\<close> only when \<open>g\<close> has one entry per column of \<open>W\<close> (what \<^verbatim>\<open>solve\<close>
  of Eigen returns). All other sizes agree by the declarations of the function itself.
\<close>

definition poisson_surface_reconstruction :: "collaborators \<Rightarrow> arguments \<Rightarrow> arguments outcome" where
  "poisson_surface_reconstruction c s =
     (case grid_of (arg_P s) of
        Undefined \<Rightarrow> Undefined
      | Returns g \<Rightarrow>
          (let x = node_positions g (replicate (node_count g) (0, 0, 0)) in
           if length (arg_N s) \<noteq> length (arg_P s) then Undefined
           else
             (let g0 = potential_g c g (arg_P s) (arg_N s) in
              if length g0 \<noteq> node_count g then Undefined
              else
                (let m = marching_cubes c (calibrated_g c g (arg_P s) g0) x
                           (grid_nx g) (grid_ny g) (grid_nz g) (arg_V s, arg_F s)
                 in Returns (s\<lparr>arg_V := fst m, arg_F := snd m\<rparr>)))))"

subsection \<open>The staggered samples as the specification words them\<close>

text \<open>
  A staggered grid for an axis is a grid with the dimension along that axis reduced by
  one and the corner shifted by \<open>h / 2\<close> along it. The interpolation matrix of a grid
  against the points has one row per point and one column per node of the grid. The
  right-hand side is the concatenation, in the order x, y, z, of the transposed
  interpolation matrix of each staggered grid applied to that component of the normals.
\<close>

datatype axis = Axis_x | Axis_y | Axis_z

fun axis_index :: "axis \<Rightarrow> nat" where
  "axis_index Axis_x = 0"
| "axis_index Axis_y = 1"
| "axis_index Axis_z = 2"

fun staggered_grid :: "axis \<Rightarrow> grid \<Rightarrow> grid" where
  "staggered_grid Axis_x g =
     g\<lparr>grid_nx := grid_nx g - 1, grid_corner := vadd (grid_corner g) (grid_h g / 2, 0, 0)\<rparr>"
| "staggered_grid Axis_y g =
     g\<lparr>grid_ny := grid_ny g - 1, grid_corner := vadd (grid_corner g) (0, grid_h g / 2, 0)\<rparr>"
| "staggered_grid Axis_z g =
     g\<lparr>grid_nz := grid_nz g - 1, grid_corner := vadd (grid_corner g) (0, 0, grid_h g / 2)\<rparr>"

definition InterpolationMatrix :: "collaborators \<Rightarrow> grid \<Rightarrow> vec3 list \<Rightarrow> smatrix" where
  "InterpolationMatrix c g P =
     \<lparr>nrows = length P, ncols = node_count g,
      coeff = fd_interpolate c (grid_nx g) (grid_ny g) (grid_nz g) (grid_h g) (grid_corner g) P\<rparr>"


subsection \<open>The gradient operator of the specification\<close>

text \<open>
  Modelled from the spec: \<^verbatim>\<open>fd_grad\<close>, which the file calls and whose definition is not
  among the sources. Section 4.4: for each staggered x-node at subscript \<open>(i, j, k)\<close>,
  \<open>i\<close> ranging over \<open>nx - 1\<close>, the row has \<open>-1/h\<close> at the primary node \<open>(i, j, k)\<close> and
  \<open>+1/h\<close> at \<open>(i + 1, j, k)\<close>; the rows for y and z are built alike; the row blocks are
  stacked in the order x, y, z. Section 3: a staggered grid is a grid, so its nodes are
  numbered by the index rule of grids with its own dimensions. Section 9: the matrix is
  a list of (row, column, weight) triplets, then finalised; Eigen adds up the weights of
  equal positions.
\<close>

definition fd_grad_triplets :: "nat \<Rightarrow> nat \<Rightarrow> nat \<Rightarrow> real \<Rightarrow> (nat \<times> nat \<times> real) list" where
  "fd_grad_triplets nx ny nz h =
     concat (map (\<lambda>(i, j, k).
         [(ind (nx - 1) ny i j k, ind nx ny i j k, - 1 / h),
          (ind (nx - 1) ny i j k, ind nx ny (Suc i) j k, 1 / h)])
       (subscripts (nx - 1) ny nz)) @
     concat (map (\<lambda>(i, j, k).
         [((nx - 1) * ny * nz + ind nx (ny - 1) i j k, ind nx ny i j k, - 1 / h),
          ((nx - 1) * ny * nz + ind nx (ny - 1) i j k, ind nx ny i (Suc j) k, 1 / h)])
       (subscripts nx (ny - 1) nz)) @
     concat (map (\<lambda>(i, j, k).
         [((nx - 1) * ny * nz + nx * (ny - 1) * nz + ind nx ny i j k, ind nx ny i j k, - 1 / h),
          ((nx - 1) * ny * nz + nx * (ny - 1) * nz + ind nx ny i j k, ind nx ny i j (Suc k), 1 / h)])
       (subscripts nx ny (nz - 1)))"

definition setFromTriplets :: "(nat \<times> nat \<times> real) list \<Rightarrow> nat \<Rightarrow> nat \<Rightarrow> real" where
  "setFromTriplets T r c = sum_list (map (\<lambda>(r', c', w). if r' = r \<and> c' = c then w else 0) T)"

definition fd_grad_spec :: "nat \<Rightarrow> nat \<Rightarrow> nat \<Rightarrow> real \<Rightarrow> nat \<Rightarrow> nat \<Rightarrow> real" where
  "fd_grad_spec nx ny nz h = setFromTriplets (fd_grad_triplets nx ny nz h)"

text \<open>
  Row \<open>r\<close> of a matrix is the forward difference between the columns \<open>lo\<close> and \<open>hi\<close>:
  \<open>-1/h\<close> at \<open>lo\<close>, \<open>+1/h\<close> at \<open>hi\<close>, zero elsewhere.
\<close>

definition forward_difference_row :: "smatrix \<Rightarrow> real \<Rightarrow> nat \<Rightarrow> nat \<Rightarrow> nat \<Rightarrow> bool" where
  "forward_difference_row A h r lo hi =
     (\<forall>c<ncols A. coeff A r c = (if c = hi then 1 / h else 0) + (if c = lo then - 1 / h else 0))"

text \<open>
  The words of the claim about the rows: the index of a node in a grid, the subscripts a
  grid has, the first row of the block of an axis, and the primary node one step along
  the axis.
\<close>

definition grid_index :: "grid \<Rightarrow> nat \<Rightarrow> nat \<Rightarrow> nat \<Rightarrow> nat" where
  "grid_index g i j k = ind (grid_nx g) (grid_ny g) i j k"

definition in_grid :: "grid \<Rightarrow> nat \<Rightarrow> nat \<Rightarrow> nat \<Rightarrow> bool" where
  "in_grid g i j k = (i < grid_nx g \<and> j < grid_ny g \<and> k < grid_nz g)"

fun block_offset :: "grid \<Rightarrow> axis \<Rightarrow> nat" where
  "block_offset g Axis_x = 0"
| "block_offset g Axis_y = node_count (staggered_grid Axis_x g)"
| "block_offset g Axis_z =
     node_count (staggered_grid Axis_x g) + node_count (staggered_grid Axis_y g)"

fun forward_index :: "grid \<Rightarrow> axis \<Rightarrow> nat \<Rightarrow> nat \<Rightarrow> nat \<Rightarrow> nat" where
  "forward_index g Axis_x i j k = grid_index g (Suc i) j k"
| "forward_index g Axis_y i j k = grid_index g i (Suc j) k"
| "forward_index g Axis_z i j k = grid_index g i j (Suc k)"

text \<open>
  A block of difference rows, one row per element of a list: each element gives the row
  and the two columns.
\<close>

definition difference_rows ::
  "('a \<Rightarrow> nat) \<Rightarrow> ('a \<Rightarrow> nat) \<Rightarrow> ('a \<Rightarrow> nat) \<Rightarrow> real \<Rightarrow> 'a list \<Rightarrow> (nat \<times> nat \<times> real) list" where
  "difference_rows f lo hi h ps = concat (map (\<lambda>p. [(f p, lo p, - 1 / h), (f p, hi p, 1 / h)]) ps)"

subsection \<open>Concrete inputs\<close>

text \<open>
  Two points with extents 46, 3/2 and 0, and the grid the function builds for them
  (spacing 1).
\<close>

definition two_points :: "vec3 list" where
  "two_points = [(0, 0, 0), (46, 3 / 2, 0)]"

definition two_points_grid :: grid where
  "two_points_grid =
     \<lparr>grid_corner = (- 8, - 8, - 8), grid_h = 1, grid_nx = 62, grid_ny = 17, grid_nz = 16\<rparr>"

text \<open>
  A grid of two nodes along x, with one point in the middle of its only cell and the
  normal along x. The interpolation that serves as example gives every point the
  weight 1 at node 0; the example solver returns the vector \<open>(0, 1)\<close>, which solves the
  normal equations of this grid; the example extraction returns one triangle whatever it
  is given.
\<close>

definition toy_grid :: grid where
  "toy_grid = \<lparr>grid_corner = (0, 0, 0), grid_h = 1, grid_nx = 2, grid_ny = 1, grid_nz = 1\<rparr>"

definition toy_P :: "vec3 list" where
  "toy_P = [(1 / 2, 0, 0)]"

definition toy_N :: "vec3 list" where
  "toy_N = [(1, 0, 0)]"

definition one_triangle :: mesh where
  "one_triangle = ([(0, 0, 0), (1, 0, 0), (0, 1, 0)], [(0, 1, 2)])"

definition toy_collaborators :: collaborators where
  "toy_collaborators =
     \<lparr>fd_interpolate = (\<lambda>nx ny nz h corner P p j. if j = 0 then 1 else 0),
      fd_grad = fd_grad_spec,
      solver = (\<lambda>A b. ([0, 1], Success)),
      marching_cubes = (\<lambda>g x nx ny nz m. one_triangle)\<rparr>"

text \<open>
  The same interpolation and extraction with a solver that gives up: it returns its
  initial guess, the zero vector, and reports that it has not converged.
\<close>

definition stalled_collaborators :: collaborators where
  "stalled_collaborators =
     toy_collaborators\<lparr>solver := (\<lambda>A b. (replicate (ncols A) 0, NoConvergence))\<rparr>"

definition unit_normals :: "vec3 list" where
  "unit_normals = [(1, 0, 0), (0, 1, 0)]"

text \<open>
  Three calls: the two points with a normal each, a single point, and the two points
  with one normal only.
\<close>

definition two_points_call :: arguments where
  "two_points_call = \<lparr>arg_P = two_points, arg_N = unit_normals, arg_V = [], arg_F = []\<rparr>"



section \<open>Properties of the grid\<close>

lemma maxCoeff_Max: "xs \<noteq> [] \<Longrightarrow> maxCoeff xs = Max (set xs)"
proof (cases xs)
  case (Cons a as)
  then show ?thesis
    using Max.set_eq_fold [of a as] by (simp add: maxCoeff_def)
qed simp

lemma minCoeff_Min: "xs \<noteq> [] \<Longrightarrow> minCoeff xs = Min (set xs)"
proof (cases xs)
  case (Cons a as)
  then show ?thesis
    using Min.set_eq_fold [of a as] by (simp add: minCoeff_def)
qed simp

lemma col_nonempty: "P \<noteq> [] \<Longrightarrow> col i P \<noteq> []"
  by (simp add: col_def)

lemma minCoeff_le: "x \<in> set xs \<Longrightarrow> minCoeff xs \<le> x"
  by (cases "xs = []") (simp_all add: minCoeff_Min)

lemma maxCoeff_ge: "x \<in> set xs \<Longrightarrow> x \<le> maxCoeff xs"
  by (cases "xs = []") (simp_all add: maxCoeff_Max)

lemma minCoeff_le_maxCoeff: "xs \<noteq> [] \<Longrightarrow> minCoeff xs \<le> maxCoeff xs"
  by (cases xs) (auto intro: order_trans [OF minCoeff_le maxCoeff_ge])

lemma max_extent_ge: "i < 3 \<Longrightarrow> maxCoeff (col i P) - minCoeff (col i P) \<le> max_extent P"
proof -
  assume "i < 3"
  then have "i = 0 \<or> i = 1 \<or> i = 2" by arith
  then show ?thesis
    unfolding max_extent_def by (auto intro!: maxCoeff_ge)
qed

lemma to_int_floor: "0 \<le> d \<Longrightarrow> to_int d = \<lfloor>d\<rfloor>"
  by (simp add: to_int_def)

text \<open>
  The dimension in closed form: the quotient of the extent by the spacing, truncated, plus
  the sixteen cells of padding. It lies between 16 and 62, so the conversion to
  \<^verbatim>\<open>int\<close> is always defined and the lower bound 3 of the source never applies.
\<close>

lemma dimension_closed:
  assumes "P \<noteq> []" "0 < max_extent P" "i < 3"
  shows "int (dimension i P) = \<lfloor>(maxCoeff (col i P) - minCoeff (col i P)) / spacing P\<rfloor> + 16"
proof -
  let ?e = "maxCoeff (col i P) - minCoeff (col i P)"
  have h: "0 < spacing P" using assms(2) by (simp add: spacing_def pad_def)
  have e: "0 \<le> ?e" using minCoeff_le_maxCoeff [OF col_nonempty [OF assms(1)], of i] by simp
  have q: "(?e + (2 * pad) * spacing P) / spacing P = ?e / spacing P + 16"
    using h by (simp add: pad_def field_simps)
  have "0 \<le> ?e / spacing P" using e h by simp
  then have "0 \<le> \<lfloor>?e / spacing P\<rfloor>" by simp
  then show ?thesis
    unfolding dimension_def q by (simp add: to_int_def max_def) 
qed




lemma dimension_le_62:
  assumes "P \<noteq> []" "0 < max_extent P" "i < 3"
  shows "dimension i P \<le> 62"
proof -
  let ?e = "maxCoeff (col i P) - minCoeff (col i P)"
  have h: "0 < spacing P" using assms(2) by (simp add: spacing_def pad_def)
  have "?e \<le> max_extent P" by (rule max_extent_ge [OF assms(3)])
  also have "\<dots> = 46 * spacing P" by (simp add: spacing_def pad_def)
  finally have "?e / spacing P \<le> 46" using h by (simp add: field_simps)
  then have "\<lfloor>?e / spacing P\<rfloor> \<le> 46" by (simp add: floor_le_iff)
  then have "int (dimension i P) \<le> 62" by (simp add: dimension_closed [OF assms])
  then show ?thesis by simp
qed










subsection \<open>C1: the grid against the reference algorithm\<close>






subsection \<open>C8: the grid contains the points\<close>



section \<open>Properties of the node positions\<close>

lemma ind_less:
  assumes "i < a" "j < b" "k < c"
  shows "ind a b i j k < a * b * c"
proof -
  have "j + k * b < b + k * b" using assms(2) by simp
  also have "\<dots> = Suc k * b" by simp
  also have "\<dots> \<le> c * b" using assms(3) by (intro mult_le_mono1) simp
  finally have m: "Suc (j + k * b) \<le> b * c" by (simp add: mult.commute)
  have "i + a * (j + k * b) < a + a * (j + k * b)" using assms(1) by simp
  also have "\<dots> = a * Suc (j + k * b)" by simp
  also have "\<dots> \<le> a * (b * c)" using m by (rule mult_le_mono2)
  finally show ?thesis by (simp add: ind_def mult.assoc)
qed

lemma ind_mod: "i < a \<Longrightarrow> ind a b i j k mod a = i"
  by (simp add: ind_def)

lemma ind_div: "i < a \<Longrightarrow> ind a b i j k div a = j + k * b"
  by (simp add: ind_def)

lemma ind_inject:
  assumes "i < a" "i' < a" "j < b" "j' < b" "ind a b i j k = ind a b i' j' k'"
  shows "i = i' \<and> j = j' \<and> k = k'"
proof -
  have i: "i = i'" using ind_mod [OF assms(1), of b j k] ind_mod [OF assms(2), of b j' k']
    by (simp add: assms(5))
  have d: "j + k * b = j' + k' * b"
    using ind_div [OF assms(1), of b j k] ind_div [OF assms(2), of b j' k']
    by (simp add: assms(5))
  have "(j + k * b) mod b = j" "(j' + k' * b) mod b = j'" using assms(3,4) by simp_all
  with d have j: "j = j'" by simp
  have "(j + k * b) div b = k" "(j' + k' * b) div b = k'" using assms(3,4) by simp_all
  with d have "k = k'" by simp
  with i j show ?thesis by simp
qed

lemma ind_decode:
  assumes "n < a * b * c"
  shows "n mod a < a \<and> (n div a) mod b < b \<and> n div a div b < c \<and>
    ind a b (n mod a) ((n div a) mod b) (n div a div b) = n"
proof -
  from assms have a: "0 < a" by (cases a) simp_all
  from assms have b: "0 < b" by (cases b) simp_all
  from assms have "n < (b * c) * a" by (simp add: ac_simps)
  then have "n div a < b * c" by (rule less_mult_imp_div_less)
  then have "n div a < c * b" by (simp add: ac_simps)
  then have k: "n div a div b < c" by (rule less_mult_imp_div_less)
  have "(n div a) mod b + (n div a div b) * b = n div a" by simp
  then have "ind a b (n mod a) ((n div a) mod b) (n div a div b) = n mod a + a * (n div a)"
    by (simp only: ind_def)
  also have "\<dots> = n" by simp
  finally show ?thesis using a b k by simp
qed

lemma set_subscripts: "set (subscripts a b c) = {..<a} \<times> {..<b} \<times> {..<c}"
  by (auto simp: subscripts_def)

lemma distinct_subscripts: "distinct (subscripts a b c)"
  by (simp add: subscripts_def distinct_product)

lemma fold_product:
  "fold f (List.product xs ys) = fold (\<lambda>x. fold (\<lambda>y. f (x, y)) ys) xs"
  by (induction xs) (simp_all add: fold_map comp_def)

lemma node_positions_fold:
  "node_positions g x0 =
     fold (\<lambda>(i, j, k) x. x[ind (grid_nx g) (grid_ny g) i j k :=
         vadd (grid_corner g) (smul (grid_h g) (real i, real j, real k))])
       (subscripts (grid_nx g) (grid_ny g) (grid_nz g)) x0"
  by (simp add: node_positions_def subscripts_def fold_product)

lemma length_fold_update: "length (fold (\<lambda>y x. x[f y := h y]) ys x) = length x"
  by (induction ys arbitrary: x) simp_all

lemma fold_update_other:
  "n \<notin> f ` set ys \<Longrightarrow> fold (\<lambda>y x. x[f y := h y]) ys x ! n = x ! n"
  by (induction ys arbitrary: x) auto

lemma fold_update_nth:
  "distinct (map f ys) \<Longrightarrow> a \<in> set ys \<Longrightarrow> f a < length x \<Longrightarrow>
     fold (\<lambda>y x. x[f y := h y]) ys x ! f a = h a"
proof (induction ys arbitrary: x)
  case Nil
  then show ?case by simp
next
  case (Cons y ys)
  show ?case
  proof (cases "a = y")
    case True
    with Cons.prems have "f y \<notin> f ` set ys" by simp
    then have "fold (\<lambda>y x. x[f y := h y]) ys (x[f y := h y]) ! f y = x[f y := h y] ! f y"
      by (rule fold_update_other)
    with True Cons.prems show ?thesis by simp
  next
    case False
    with Cons.prems have "a \<in> set ys" "distinct (map f ys)" by simp_all
    then show ?thesis using Cons.IH [of "x[f y := h y]"] Cons.prems(3) by simp
  qed
qed

lemma inj_on_subscripts:
  "inj_on (\<lambda>(i, j, k). ind a b i j k) ({..<a} \<times> {..<b} \<times> {..<c})"
proof (rule inj_onI)
  fix p q :: "nat \<times> nat \<times> nat"
  assume p: "p \<in> {..<a} \<times> {..<b} \<times> {..<c}" and q: "q \<in> {..<a} \<times> {..<b} \<times> {..<c}"
    and e: "(case p of (i, j, k) \<Rightarrow> ind a b i j k) = (case q of (i, j, k) \<Rightarrow> ind a b i j k)"
  obtain i j k where pp: "p = (i, j, k)" by (cases p)
  obtain i' j' k' where qq: "q = (i', j', k')" by (cases q)
  from p q pp qq have "i < a" "i' < a" "j < b" "j' < b" by simp_all
  moreover from e pp qq have "ind a b i j k = ind a b i' j' k'" by simp
  ultimately have "i = i' \<and> j = j' \<and> k = k'" by (rule ind_inject)
  with pp qq show "p = q" by simp
qed


lemma distinct_node_writes: "distinct (node_writes g)"
  unfolding node_writes_def
  by (simp add: distinct_map distinct_subscripts set_subscripts inj_on_subscripts)


lemma node_positions_nth:
  assumes "length x0 = node_count g" "i < grid_nx g" "j < grid_ny g" "k < grid_nz g"
  shows "node_positions g x0 ! ind (grid_nx g) (grid_ny g) i j k =
    vadd (grid_corner g) (smul (grid_h g) (real i, real j, real k))"
proof -
  let ?f = "\<lambda>(i, j, k). ind (grid_nx g) (grid_ny g) i j k"
  let ?h = "\<lambda>(i, j, k). vadd (grid_corner g) (smul (grid_h g) (real i, real j, real k))"
  have eq: "node_positions g x0 =
      fold (\<lambda>y x. x[?f y := ?h y]) (subscripts (grid_nx g) (grid_ny g) (grid_nz g)) x0"
    by (simp add: node_positions_fold case_prod_unfold)
  have d: "distinct (map ?f (subscripts (grid_nx g) (grid_ny g) (grid_nz g)))"
    using distinct_node_writes [of g] by (simp add: node_writes_def)
  have m: "(i, j, k) \<in> set (subscripts (grid_nx g) (grid_ny g) (grid_nz g))"
    using assms(2-4) by (simp add: set_subscripts)
  have l: "?f (i, j, k) < length x0"
    using ind_less [OF assms(2-4)] assms(1) by (simp add: node_count_def)
  from fold_update_nth [of ?f _ "(i, j, k)" x0 ?h, OF d m l] show ?thesis
    by (simp add: eq)
qed


subsection \<open>C9: node positions and the index bijection\<close>



lemma grid_of_two_points: "grid_of two_points = Returns two_points_grid"
  by (simp add: two_points_def two_points_grid_def grid_of_def spacing_def max_extent_def
      col_def maxCoeff_def minCoeff_def pad_def dimension_def to_int_def)


text \<open>
  What \<open>x\<close> holds before the loops does not matter: every row is assigned, so two runs
  of the loops from any contents give the same matrix.
\<close>

lemma node_positions_initial:
  assumes "length x0 = node_count g" and "length x1 = node_count g"
  shows "node_positions g x0 = node_positions g x1"
proof (rule nth_equalityI)
  show "length (node_positions g x0) = length (node_positions g x1)"
    using assms by (simp add: node_positions_fold case_prod_unfold length_fold_update)
next
  fix n assume "n < length (node_positions g x0)"
  then have n: "n < grid_nx g * grid_ny g * grid_nz g"
    using assms(1)
    by (simp add: node_positions_fold case_prod_unfold length_fold_update node_count_def)
  let ?i = "n mod grid_nx g" and ?j = "(n div grid_nx g) mod grid_ny g"
    and ?k = "n div grid_nx g div grid_ny g"
  from ind_decode [OF n] have d: "?i < grid_nx g" "?j < grid_ny g" "?k < grid_nz g"
    "ind (grid_nx g) (grid_ny g) ?i ?j ?k = n"
    by simp_all
  from node_positions_nth [OF assms(1) d(1-3)] node_positions_nth [OF assms(2) d(1-3)]
  show "node_positions g x0 ! n = node_positions g x1 ! n"
    by (simp only: d(4))
qed

section \<open>Properties of the matrix operations\<close>

lemma length_mat_vec: "length (mat_vec A x) = nrows A"
  by (simp add: mat_vec_def)

lemma nth_mat_vec:
  "i < nrows A \<Longrightarrow> mat_vec A x ! i = (\<Sum>j<ncols A. coeff A i j * x ! j)"
  by (simp add: mat_vec_def)

lemma length_vsub: "length (vsub x y) = length x"
  by (simp add: vsub_def)

lemma nth_vsub: "i < length x \<Longrightarrow> vsub x y ! i = x ! i - y ! i"
  by (simp add: vsub_def)

lemma sum_list_upt: "sum_list (map f [0..<n]) = (\<Sum>i<n. f i)"
  by (simp add: interv_sum_list_conv_sum_set_nat atLeast0LessThan)

lemma sum_list_nth: "sum_list xs = (\<Sum>i<length xs. xs ! i)"
proof -
  have "sum_list xs = sum_list (map (\<lambda>i. xs ! i) [0..<length xs])"
    by (simp add: map_nth)
  then show ?thesis by (simp only: sum_list_upt)
qed

text \<open>The transpose is the adjoint with respect to the inner product.\<close>

lemma dot_mat_vec_transpose:
  assumes "length x = ncols A"
  shows "dot (mat_vec A x) y = dot x (mat_vec (transpose_sm A) y)"
proof -
  have "dot (mat_vec A x) y = (\<Sum>i<nrows A. (\<Sum>j<ncols A. coeff A i j * x ! j) * y ! i)"
    by (simp add: dot_def length_mat_vec nth_mat_vec)
  also have "\<dots> = (\<Sum>i<nrows A. \<Sum>j<ncols A. x ! j * (coeff A i j * y ! i))"
    by (simp add: sum_distrib_right mult.assoc mult.left_commute [of _ "x ! _"])
  also have "\<dots> = (\<Sum>j<ncols A. \<Sum>i<nrows A. x ! j * (coeff A i j * y ! i))"
    by (rule sum.swap)
  also have "\<dots> = (\<Sum>j<ncols A. x ! j * (\<Sum>i<nrows A. coeff A i j * y ! i))"
    by (simp add: sum_distrib_left)
  also have "\<dots> = dot x (mat_vec (transpose_sm A) y)"
    using assms by (simp add: dot_def nth_mat_vec transpose_sm_def)
  finally show ?thesis .
qed

lemma mat_vec_mat_mul:
  assumes "ncols A = nrows B"
  shows "mat_vec (mat_mul A B) x = mat_vec A (mat_vec B x)"
proof (rule nth_equalityI)
  show "length (mat_vec (mat_mul A B) x) = length (mat_vec A (mat_vec B x))"
    by (simp add: length_mat_vec mat_mul_def)
next
  fix i assume "i < length (mat_vec (mat_mul A B) x)"
  then have i: "i < nrows A" by (simp add: length_mat_vec mat_mul_def)
  have "mat_vec (mat_mul A B) x ! i =
      (\<Sum>j<ncols B. (\<Sum>k<ncols A. coeff A i k * coeff B k j) * x ! j)"
    using i by (simp add: nth_mat_vec mat_mul_def)
  also have "\<dots> = (\<Sum>j<ncols B. \<Sum>k<ncols A. coeff A i k * (coeff B k j * x ! j))"
    by (simp add: sum_distrib_right mult.assoc)
  also have "\<dots> = (\<Sum>k<ncols A. \<Sum>j<ncols B. coeff A i k * (coeff B k j * x ! j))"
    by (rule sum.swap)
  also have "\<dots> = (\<Sum>k<ncols A. coeff A i k * (\<Sum>j<ncols B. coeff B k j * x ! j))"
    by (simp add: sum_distrib_left)
  also have "\<dots> = (\<Sum>k<ncols A. coeff A i k * mat_vec B x ! k)"
    using assms by (simp add: nth_mat_vec)
  also have "\<dots> = mat_vec A (mat_vec B x) ! i"
    using i by (simp add: nth_mat_vec)
  finally show "mat_vec (mat_mul A B) x ! i = mat_vec A (mat_vec B x) ! i" .
qed

lemma mat_vec_vsub:
  assumes "length x = ncols A"
  shows "mat_vec A (vsub x y) = vsub (mat_vec A x) (mat_vec A y)"
proof (rule nth_equalityI)
  show "length (mat_vec A (vsub x y)) = length (vsub (mat_vec A x) (mat_vec A y))"
    by (simp add: length_mat_vec length_vsub)
next
  fix i assume "i < length (mat_vec A (vsub x y))"
  then have i: "i < nrows A" by (simp add: length_mat_vec)
  have "mat_vec A (vsub x y) ! i = (\<Sum>j<ncols A. coeff A i j * (x ! j - y ! j))"
    using i assms by (simp add: nth_mat_vec nth_vsub)
  also have "\<dots> = (\<Sum>j<ncols A. coeff A i j * x ! j) - (\<Sum>j<ncols A. coeff A i j * y ! j)"
    by (simp add: right_diff_distrib sum_subtractf)
  also have "\<dots> = vsub (mat_vec A x) (mat_vec A y) ! i"
    using i by (simp add: nth_vsub length_mat_vec nth_mat_vec)
  finally show "mat_vec A (vsub x y) ! i = vsub (mat_vec A x) (mat_vec A y) ! i" .
qed

text \<open>
  A solution of the normal equations minimises the residual: the residual of any other
  vector is the residual of the solution plus the image of the difference, and the two
  are orthogonal.
\<close>

lemma normal_equations_minimise:
  assumes ne: "mat_vec (mat_mul (transpose_sm A) A) x = mat_vec (transpose_sm A) b"
    and lx: "length x = ncols A" and ly: "length y = ncols A" and lb: "length b = nrows A"
  shows "squaredNorm (vsub (mat_vec A x) b) \<le> squaredNorm (vsub (mat_vec A y) b)"
proof -
  let ?r = "vsub (mat_vec A x) b" and ?d = "vsub y x"
  let ?e = "mat_vec A ?d"
  have lr: "length ?r = nrows A" by (simp add: length_vsub length_mat_vec)
  have "mat_vec (transpose_sm A) ?r =
      vsub (mat_vec (transpose_sm A) (mat_vec A x)) (mat_vec (transpose_sm A) b)"
    by (rule mat_vec_vsub) (simp add: length_mat_vec transpose_sm_def)
  also have "mat_vec (transpose_sm A) (mat_vec A x) = mat_vec (mat_mul (transpose_sm A) A) x"
    by (rule mat_vec_mat_mul [symmetric]) (simp add: transpose_sm_def)
  finally have z: "mat_vec (transpose_sm A) ?r =
      vsub (mat_vec (transpose_sm A) b) (mat_vec (transpose_sm A) b)"
    by (simp only: ne)
  have zero: "mat_vec (transpose_sm A) ?r ! j = 0" if "j < ncols A" for j
  proof -
    have "j < length (mat_vec (transpose_sm A) b)"
      using that by (simp add: length_mat_vec transpose_sm_def)
    then have "vsub (mat_vec (transpose_sm A) b) (mat_vec (transpose_sm A) b) ! j = 0"
      by (simp add: nth_vsub)
    then show ?thesis by (simp only: z)
  qed
  have "dot ?e ?r = dot ?d (mat_vec (transpose_sm A) ?r)"
    by (rule dot_mat_vec_transpose) (simp add: length_vsub ly)
  also have "\<dots> = 0"
    by (simp add: dot_def length_vsub ly zero)
  finally have orth: "(\<Sum>i<nrows A. ?e ! i * ?r ! i) = 0"
    by (simp add: dot_def length_mat_vec)
  have split: "vsub (mat_vec A y) b ! i = ?r ! i + ?e ! i" if "i < nrows A" for i
  proof -
    have "?e = vsub (mat_vec A y) (mat_vec A x)" by (rule mat_vec_vsub [OF ly])
    with that show ?thesis by (simp add: nth_vsub length_mat_vec)
  qed
  have "squaredNorm (vsub (mat_vec A y) b) =
      (\<Sum>i<nrows A. (?r ! i + ?e ! i) * (?r ! i + ?e ! i))"
    by (simp add: squaredNorm_def dot_def length_vsub length_mat_vec split)
  also have "\<dots> = (\<Sum>i<nrows A. ?r ! i * ?r ! i + 2 * (?e ! i * ?r ! i) + ?e ! i * ?e ! i)"
    by (rule sum.cong) (simp_all add: algebra_simps)
  also have "\<dots> = (\<Sum>i<nrows A. ?r ! i * ?r ! i) + 2 * (\<Sum>i<nrows A. ?e ! i * ?r ! i) +
      (\<Sum>i<nrows A. ?e ! i * ?e ! i)"
    by (simp add: sum.distrib sum_distrib_left)
  also have "\<dots> = squaredNorm ?r + (\<Sum>i<nrows A. ?e ! i * ?e ! i)"
    by (simp add: orth squaredNorm_def dot_def lr)
  finally have "squaredNorm (vsub (mat_vec A y) b) =
      squaredNorm ?r + (\<Sum>i<nrows A. ?e ! i * ?e ! i)" .
  moreover have "0 \<le> (\<Sum>i<nrows A. ?e ! i * ?e ! i)"
    by (rule sum_nonneg) simp
  ultimately show ?thesis by simp
qed

section \<open>Properties of the pipeline\<close>

subsection \<open>Shapes, and the example on the grid of two nodes\<close>

lemma length_sample_v: "length (sample_v c g P N) = staggered_count g"
  by (simp add: sample_v_def length_mat_vec transpose_sm_def staggered_Wx_def staggered_Wy_def
      staggered_Wz_def filled_def staggered_count_def)

lemma gradient_G_shape: "nrows (gradient_G c g) = staggered_count g" "ncols (gradient_G c g) = node_count g"
  by (simp_all add: gradient_G_def filled_def)

lemma primary_W_shape:
  "nrows (primary_W c g P) = length P" "ncols (primary_W c g P) = node_count g"
  by (simp_all add: primary_W_def filled_def)

lemma ncols_normal_matrix: "ncols (normal_matrix c g) = node_count g"
  by (simp add: normal_matrix_def mat_mul_def gradient_G_shape)

lemma sample_v_blocks:
  "sample_v c g P N =
     mat_vec (transpose_sm (InterpolationMatrix c (staggered_grid Axis_x g) P)) (col 0 N) @
     mat_vec (transpose_sm (InterpolationMatrix c (staggered_grid Axis_y g) P)) (col 1 N) @
     mat_vec (transpose_sm (InterpolationMatrix c (staggered_grid Axis_z g) P)) (col 2 N)"
  by (simp add: sample_v_def staggered_Wx_def staggered_Wy_def staggered_Wz_def
      InterpolationMatrix_def filled_def node_count_def)

lemma length_block:
  "length (mat_vec (transpose_sm (InterpolationMatrix c g P)) x) = node_count g"
  by (simp add: length_mat_vec transpose_sm_def InterpolationMatrix_def)

lemma staggered_count_blocks:
  "staggered_count g =
     node_count (staggered_grid Axis_x g) + node_count (staggered_grid Axis_y g) +
     node_count (staggered_grid Axis_z g)"
  by (simp add: staggered_count_def node_count_def)

lemma product_Nil_right: "List.product xs [] = []"
  by (induction xs) simp_all

lemma toy_G: "gradient_G toy_collaborators toy_grid =
   \<lparr>nrows = 1, ncols = 2, coeff = setFromTriplets [(0, 0, - 1), (0, 1, 1)]\<rparr>"
  by (simp add: gradient_G_def filled_def toy_collaborators_def toy_grid_def staggered_count_def
      node_count_def fd_grad_spec_def fd_grad_triplets_def subscripts_def ind_def
      product_Nil_right)

lemma toy_v: "sample_v toy_collaborators toy_grid toy_P toy_N = [1]"
  by (simp add: sample_v_def staggered_Wx_def staggered_Wy_def staggered_Wz_def filled_def
      toy_collaborators_def toy_grid_def toy_P_def toy_N_def mat_vec_def transpose_sm_def col_def)

lemma toy_g: "potential_g toy_collaborators toy_grid toy_P toy_N = [0, 1]"
  by (simp add: potential_g_def toy_collaborators_def)

lemma toy_rhs: "normal_rhs toy_collaborators toy_grid toy_P toy_N = [- 1, 1]"
  by (simp add: normal_rhs_def toy_G toy_v mat_vec_def transpose_sm_def setFromTriplets_def
      numeral_2_eq_2)

lemma toy_conv: "mat_vec (normal_matrix toy_collaborators toy_grid)
     (potential_g toy_collaborators toy_grid toy_P toy_N) =
   normal_rhs toy_collaborators toy_grid toy_P toy_N"
  by (simp add: toy_rhs toy_g normal_matrix_def toy_G mat_vec_def mat_mul_def transpose_sm_def
      setFromTriplets_def numeral_2_eq_2)

lemma toy_rows: "\<forall>p<length toy_P. (\<Sum>j<node_count toy_grid. coeff (primary_W toy_collaborators toy_grid toy_P) p j) = 1"
  by (simp add: toy_P_def node_count_def toy_grid_def primary_W_def filled_def toy_collaborators_def numeral_2_eq_2)


subsection \<open>C3: the staggered samples\<close>




subsection \<open>C4: the rows of the gradient matrix and the entries of the samples\<close>

lemma setFromTriplets_append:
  "setFromTriplets (xs @ ys) r c = setFromTriplets xs r c + setFromTriplets ys r c"
  by (simp add: setFromTriplets_def)

lemma setFromTriplets_Cons:
  "setFromTriplets ((r', c', w) # T) r c =
     (if r' = r \<and> c' = c then w else 0) + setFromTriplets T r c"
  by (simp add: setFromTriplets_def)

lemma setFromTriplets_other_rows:
  "\<forall>t \<in> set T. fst t \<noteq> r \<Longrightarrow> setFromTriplets T r c = 0"
  by (induction T) (auto simp: setFromTriplets_def)

lemma difference_rows_fst: "fst ` set (difference_rows f lo hi h ps) = f ` set ps"
  by (induction ps) (auto simp: difference_rows_def)

lemma difference_rows_Cons:
  "setFromTriplets (difference_rows f lo hi h (p # ps)) r c =
      (if f p = r \<and> lo p = c then - 1 / h else 0) +
      ((if f p = r \<and> hi p = c then 1 / h else 0) +
       setFromTriplets (difference_rows f lo hi h ps) r c)"
  by (simp add: difference_rows_def setFromTriplets_Cons)

lemma difference_rows_absent:
  assumes "r \<notin> f ` set ps"
  shows "setFromTriplets (difference_rows f lo hi h ps) r c = 0"
proof (rule setFromTriplets_other_rows, rule ballI)
  fix t assume "t \<in> set (difference_rows f lo hi h ps)"
  then have "fst t \<in> f ` set ps"
    using difference_rows_fst [of f lo hi h ps] by blast
  with assms show "fst t \<noteq> r" by blast
qed

lemma difference_rows_row:
  "distinct (map f ps) \<Longrightarrow> a \<in> set ps \<Longrightarrow>
    setFromTriplets (difference_rows f lo hi h ps) (f a) c =
    (if c = hi a then 1 / h else 0) + (if c = lo a then - 1 / h else 0)"
proof (induction ps)
  case Nil
  then show ?case by simp
next
  case (Cons p ps)
  show ?case
  proof (cases "a = p")
    case True
    from Cons.prems(1) have "f p \<notin> f ` set ps" by simp
    then have "setFromTriplets (difference_rows f lo hi h ps) (f p) c = 0"
      by (rule difference_rows_absent)
    then have "setFromTriplets (difference_rows f lo hi h (p # ps)) (f p) c =
        (if lo p = c then - 1 / h else 0) + (if hi p = c then 1 / h else 0)"
      by (simp only: difference_rows_Cons) simp
    also have "\<dots> = (if c = hi p then 1 / h else 0) + (if c = lo p then - 1 / h else 0)"
      by (simp add: eq_commute)
    finally show ?thesis by (simp only: True)
  next
    case False
    with Cons.prems have a: "a \<in> set ps" and d: "distinct (map f ps)" by simp_all
    from a Cons.prems(1) have ne: "f p \<noteq> f a" by auto
    have "setFromTriplets (difference_rows f lo hi h (p # ps)) (f a) c =
        setFromTriplets (difference_rows f lo hi h ps) (f a) c"
      using ne by (simp only: difference_rows_Cons) simp
    with Cons.IH [OF d a] show ?thesis by simp
  qed
qed

lemma fd_grad_triplets_blocks:
  "fd_grad_triplets nx ny nz h =
     difference_rows (\<lambda>(i, j, k). 0 + ind (nx - 1) ny i j k) (\<lambda>(i, j, k). ind nx ny i j k)
       (\<lambda>(i, j, k). ind nx ny (Suc i) j k) h (subscripts (nx - 1) ny nz) @
     difference_rows (\<lambda>(i, j, k). (nx - 1) * ny * nz + ind nx (ny - 1) i j k)
       (\<lambda>(i, j, k). ind nx ny i j k) (\<lambda>(i, j, k). ind nx ny i (Suc j) k) h
       (subscripts nx (ny - 1) nz) @
     difference_rows (\<lambda>(i, j, k). (nx - 1) * ny * nz + nx * (ny - 1) * nz + ind nx ny i j k)
       (\<lambda>(i, j, k). ind nx ny i j k) (\<lambda>(i, j, k). ind nx ny i j (Suc k)) h
       (subscripts nx ny (nz - 1))"
  by (simp add: fd_grad_triplets_def difference_rows_def case_prod_unfold)

lemma distinct_offset_ind:
  "distinct (map (\<lambda>(i, j, k). m + ind a b i j k) (subscripts a b c))"
proof -
  have "inj_on (\<lambda>(i, j, k). m + ind a b i j k) ({..<a} \<times> {..<b} \<times> {..<c})"
  proof (rule inj_onI)
    fix p q :: "nat \<times> nat \<times> nat"
    assume p: "p \<in> {..<a} \<times> {..<b} \<times> {..<c}" and q: "q \<in> {..<a} \<times> {..<b} \<times> {..<c}"
      and e: "(case p of (i, j, k) \<Rightarrow> m + ind a b i j k) = (case q of (i, j, k) \<Rightarrow> m + ind a b i j k)"
    then have "(case p of (i, j, k) \<Rightarrow> ind a b i j k) = (case q of (i, j, k) \<Rightarrow> ind a b i j k)"
      by (simp add: case_prod_unfold)
    then show "p = q" using p q by (rule inj_onD [OF inj_on_subscripts])
  qed
  then show ?thesis
    by (simp add: distinct_map distinct_subscripts set_subscripts)
qed

lemma rows_of_block:
  "t \<in> set (difference_rows (\<lambda>(i, j, k). m + ind a b i j k) lo hi h (subscripts a b c)) \<Longrightarrow>
     m \<le> fst t \<and> fst t < m + a * b * c"
proof -
  assume "t \<in> set (difference_rows (\<lambda>(i, j, k). m + ind a b i j k) lo hi h (subscripts a b c))"
  then have "fst t \<in> (\<lambda>(i, j, k). m + ind a b i j k) ` set (subscripts a b c)"
    using difference_rows_fst [of "\<lambda>(i, j, k). m + ind a b i j k" lo hi h "subscripts a b c"]
    by blast
  then obtain i j k where "i < a" "j < b" "k < c" "fst t = m + ind a b i j k"
    by (auto simp: set_subscripts)
  with ind_less [of i a j b k c] show ?thesis by simp
qed

lemma block_zero:
  assumes "r < m \<or> m + a * b * c \<le> r"
  shows "setFromTriplets (difference_rows (\<lambda>(i, j, k). m + ind a b i j k) lo hi h (subscripts a b c)) r cl = 0"
proof (rule setFromTriplets_other_rows, rule ballI)
  fix t assume "t \<in> set (difference_rows (\<lambda>(i, j, k). m + ind a b i j k) lo hi h (subscripts a b c))"
  from rows_of_block [OF this] assms show "fst t \<noteq> r" by auto
qed

lemma block_row:
  assumes "i < a" "j < b" "k < c"
  shows "setFromTriplets (difference_rows (\<lambda>(i, j, k). m + ind a b i j k) (\<lambda>(i, j, k). lo i j k)
      (\<lambda>(i, j, k). hi i j k) h (subscripts a b c)) (m + ind a b i j k) cl =
    (if cl = hi i j k then 1 / h else 0) + (if cl = lo i j k then - 1 / h else 0)"
proof -
  have "(i, j, k) \<in> set (subscripts a b c)" using assms by (simp add: set_subscripts)
  from difference_rows_row [OF distinct_offset_ind this, of m "\<lambda>(i, j, k). lo i j k"
      "\<lambda>(i, j, k). hi i j k" h cl]
  show ?thesis by simp
qed

lemma fd_grad_spec_x:
  assumes "i < nx - 1" "j < ny" "k < nz"
  shows "fd_grad_spec nx ny nz h (ind (nx - 1) ny i j k) cl =
    (if cl = ind nx ny (Suc i) j k then 1 / h else 0) + (if cl = ind nx ny i j k then - 1 / h else 0)"
proof -
  let ?r = "ind (nx - 1) ny i j k"
  have r: "?r < (nx - 1) * ny * nz" using assms by (rule ind_less)
  have x: "setFromTriplets (difference_rows (\<lambda>(i, j, k). 0 + ind (nx - 1) ny i j k)
      (\<lambda>(i, j, k). ind nx ny i j k) (\<lambda>(i, j, k). ind nx ny (Suc i) j k) h
      (subscripts (nx - 1) ny nz)) (0 + ?r) cl =
    (if cl = ind nx ny (Suc i) j k then 1 / h else 0) + (if cl = ind nx ny i j k then - 1 / h else 0)"
    using assms by (rule block_row)
  have y: "setFromTriplets (difference_rows (\<lambda>(i, j, k). (nx - 1) * ny * nz + ind nx (ny - 1) i j k)
      (\<lambda>(i, j, k). ind nx ny i j k) (\<lambda>(i, j, k). ind nx ny i (Suc j) k) h
      (subscripts nx (ny - 1) nz)) ?r cl = 0"
    by (rule block_zero) (use r in simp)
  have z: "setFromTriplets (difference_rows
      (\<lambda>(i, j, k). ((nx - 1) * ny * nz + nx * (ny - 1) * nz) + ind nx ny i j k)
      (\<lambda>(i, j, k). ind nx ny i j k) (\<lambda>(i, j, k). ind nx ny i j (Suc k)) h
      (subscripts nx ny (nz - 1))) ?r cl = 0"
    by (rule block_zero) (use r in simp)
  from x y z show ?thesis
    by (simp add: fd_grad_spec_def fd_grad_triplets_blocks setFromTriplets_append)
qed

lemma fd_grad_spec_y:
  assumes "i < nx" "j < ny - 1" "k < nz"
  shows "fd_grad_spec nx ny nz h ((nx - 1) * ny * nz + ind nx (ny - 1) i j k) cl =
    (if cl = ind nx ny i (Suc j) k then 1 / h else 0) + (if cl = ind nx ny i j k then - 1 / h else 0)"
proof -
  let ?r = "(nx - 1) * ny * nz + ind nx (ny - 1) i j k"
  have r: "ind nx (ny - 1) i j k < nx * (ny - 1) * nz" using assms by (rule ind_less)
  have x: "setFromTriplets (difference_rows (\<lambda>(i, j, k). 0 + ind (nx - 1) ny i j k)
      (\<lambda>(i, j, k). ind nx ny i j k) (\<lambda>(i, j, k). ind nx ny (Suc i) j k) h
      (subscripts (nx - 1) ny nz)) ?r cl = 0"
    by (rule block_zero) simp
  have y: "setFromTriplets (difference_rows (\<lambda>(i, j, k). (nx - 1) * ny * nz + ind nx (ny - 1) i j k)
      (\<lambda>(i, j, k). ind nx ny i j k) (\<lambda>(i, j, k). ind nx ny i (Suc j) k) h
      (subscripts nx (ny - 1) nz)) ?r cl =
    (if cl = ind nx ny i (Suc j) k then 1 / h else 0) + (if cl = ind nx ny i j k then - 1 / h else 0)"
    using assms by (rule block_row)
  have z: "setFromTriplets (difference_rows
      (\<lambda>(i, j, k). ((nx - 1) * ny * nz + nx * (ny - 1) * nz) + ind nx ny i j k)
      (\<lambda>(i, j, k). ind nx ny i j k) (\<lambda>(i, j, k). ind nx ny i j (Suc k)) h
      (subscripts nx ny (nz - 1))) ?r cl = 0"
    by (rule block_zero) (use r in simp)
  from x y z show ?thesis
    by (simp add: fd_grad_spec_def fd_grad_triplets_blocks setFromTriplets_append)
qed

lemma fd_grad_spec_z:
  assumes "i < nx" "j < ny" "k < nz - 1"
  shows "fd_grad_spec nx ny nz h ((nx - 1) * ny * nz + nx * (ny - 1) * nz + ind nx ny i j k) cl =
    (if cl = ind nx ny i j (Suc k) then 1 / h else 0) + (if cl = ind nx ny i j k then - 1 / h else 0)"
proof -
  let ?r = "(nx - 1) * ny * nz + nx * (ny - 1) * nz + ind nx ny i j k"
  have x: "setFromTriplets (difference_rows (\<lambda>(i, j, k). 0 + ind (nx - 1) ny i j k)
      (\<lambda>(i, j, k). ind nx ny i j k) (\<lambda>(i, j, k). ind nx ny (Suc i) j k) h
      (subscripts (nx - 1) ny nz)) ?r cl = 0"
    by (rule block_zero) simp
  have y: "setFromTriplets (difference_rows (\<lambda>(i, j, k). (nx - 1) * ny * nz + ind nx (ny - 1) i j k)
      (\<lambda>(i, j, k). ind nx ny i j k) (\<lambda>(i, j, k). ind nx ny i (Suc j) k) h
      (subscripts nx (ny - 1) nz)) ?r cl = 0"
    by (rule block_zero) simp
  have z: "setFromTriplets (difference_rows
      (\<lambda>(i, j, k). ((nx - 1) * ny * nz + nx * (ny - 1) * nz) + ind nx ny i j k)
      (\<lambda>(i, j, k). ind nx ny i j k) (\<lambda>(i, j, k). ind nx ny i j (Suc k)) h
      (subscripts nx ny (nz - 1))) ?r cl =
    (if cl = ind nx ny i j (Suc k) then 1 / h else 0) + (if cl = ind nx ny i j k then - 1 / h else 0)"
    using assms by (rule block_row)
  from x y z show ?thesis
    by (simp add: fd_grad_spec_def fd_grad_triplets_blocks setFromTriplets_append)
qed

lemma grid_index_less: "in_grid g i j k \<Longrightarrow> grid_index g i j k < node_count g"
  by (simp add: in_grid_def grid_index_def node_count_def ind_less)

lemma sample_v_nth:
  assumes "in_grid (staggered_grid a g) i j k"
  shows "sample_v c g P N ! (block_offset g a + grid_index (staggered_grid a g) i j k) =
    mat_vec (transpose_sm (InterpolationMatrix c (staggered_grid a g) P)) (col (axis_index a) N) !
      grid_index (staggered_grid a g) i j k"
proof -
  note l = grid_index_less [OF assms]
  show ?thesis
  proof (cases a)
    case Axis_x
    with l show ?thesis
      by (simp add: sample_v_blocks nth_append length_block)
  next
    case Axis_y
    with l show ?thesis
      by (simp add: sample_v_blocks nth_append length_block)
  next
    case Axis_z
    with l show ?thesis
      by (simp add: sample_v_blocks nth_append length_block)
  qed
qed

lemma staggered_row_less:
  assumes "in_grid (staggered_grid a g) i j k"
  shows "block_offset g a + grid_index (staggered_grid a g) i j k < staggered_count g"
  using grid_index_less [OF assms] by (cases a) (simp_all add: staggered_count_blocks)

lemma gradient_spec_row:
  assumes "fd_grad c = fd_grad_spec" and "in_grid (staggered_grid a g) i j k"
  shows "forward_difference_row (gradient_G c g) (grid_h g)
    (block_offset g a + grid_index (staggered_grid a g) i j k)
    (grid_index g i j k) (forward_index g a i j k)"
proof (cases a)
  case Axis_x
  with assms(2) have "i < grid_nx g - 1" "j < grid_ny g" "k < grid_nz g"
    by (simp_all add: in_grid_def)
  from fd_grad_spec_x [OF this, of "grid_h g"] Axis_x show ?thesis
    by (simp add: forward_difference_row_def gradient_G_def filled_def assms(1) grid_index_def)
next
  case Axis_y
  with assms(2) have "i < grid_nx g" "j < grid_ny g - 1" "k < grid_nz g"
    by (simp_all add: in_grid_def)
  from fd_grad_spec_y [OF this, of "grid_h g"] Axis_y show ?thesis
    by (simp add: forward_difference_row_def gradient_G_def filled_def assms(1) grid_index_def
        node_count_def)
next
  case Axis_z
  with assms(2) have "i < grid_nx g" "j < grid_ny g" "k < grid_nz g - 1"
    by (simp_all add: in_grid_def)
  from fd_grad_spec_z [OF this, of "grid_h g"] Axis_z show ?thesis
    by (simp add: forward_difference_row_def gradient_G_def filled_def assms(1) grid_index_def
        node_count_def)
qed

text \<open>
  Claim C4. The gradient matrix has
  \<open>(nx-1)*ny*nz + nx*(ny-1)*nz + nx*ny*(nz-1)\<close> rows and \<open>nx*ny*nz\<close> columns, and
  the sample vector \<open>v\<close> has as many entries as the matrix has rows: the three block
  sizes are the node counts of the staggered grids for x, y and z. With the gradient
  operator of the specification, the row at the offset of the block of an axis plus the
  index of a staggered node is the forward difference between the primary node of the
  same subscript and its successor along the axis, and the entry of \<open>v\<close> at the same
  position is the sample scattered to that staggered node.
\<close>

theorem gradient_rows_match_samples:
  "nrows (gradient_G c g) =
     (grid_nx g - 1) * grid_ny g * grid_nz g + grid_nx g * (grid_ny g - 1) * grid_nz g +
     grid_nx g * grid_ny g * (grid_nz g - 1) \<and>
   ncols (gradient_G c g) = grid_nx g * grid_ny g * grid_nz g \<and>
   length (sample_v c g P N) = nrows (gradient_G c g) \<and>
   nrows (gradient_G c g) =
     node_count (staggered_grid Axis_x g) + node_count (staggered_grid Axis_y g) +
     node_count (staggered_grid Axis_z g) \<and>
   (fd_grad c = fd_grad_spec \<longrightarrow>
     (\<forall>a i j k. in_grid (staggered_grid a g) i j k \<longrightarrow>
        block_offset g a + grid_index (staggered_grid a g) i j k < nrows (gradient_G c g) \<and>
        forward_difference_row (gradient_G c g) (grid_h g)
          (block_offset g a + grid_index (staggered_grid a g) i j k)
          (grid_index g i j k) (forward_index g a i j k) \<and>
        sample_v c g P N ! (block_offset g a + grid_index (staggered_grid a g) i j k) =
          mat_vec (transpose_sm (InterpolationMatrix c (staggered_grid a g) P))
            (col (axis_index a) N) ! grid_index (staggered_grid a g) i j k))"
proof -
  have shape: "nrows (gradient_G c g) = staggered_count g" "ncols (gradient_G c g) = node_count g"
    by (rule gradient_G_shape)+
  have "block_offset g a + grid_index (staggered_grid a g) i j k < nrows (gradient_G c g) \<and>
        forward_difference_row (gradient_G c g) (grid_h g)
          (block_offset g a + grid_index (staggered_grid a g) i j k)
          (grid_index g i j k) (forward_index g a i j k) \<and>
        sample_v c g P N ! (block_offset g a + grid_index (staggered_grid a g) i j k) =
          mat_vec (transpose_sm (InterpolationMatrix c (staggered_grid a g) P))
            (col (axis_index a) N) ! grid_index (staggered_grid a g) i j k"
    if "fd_grad c = fd_grad_spec" and "in_grid (staggered_grid a g) i j k" for a i j k
    using staggered_row_less [OF that(2)] gradient_spec_row [OF that] sample_v_nth [OF that(2)]
    by (simp add: shape)
  moreover have "nrows (gradient_G c g) =
     (grid_nx g - 1) * grid_ny g * grid_nz g + grid_nx g * (grid_ny g - 1) * grid_nz g +
     grid_nx g * grid_ny g * (grid_nz g - 1)"
    by (simp add: shape staggered_count_def)
  moreover have "ncols (gradient_G c g) = grid_nx g * grid_ny g * grid_nz g"
    by (simp add: shape node_count_def)
  moreover have "length (sample_v c g P N) = nrows (gradient_G c g)"
    by (simp add: shape length_sample_v)
  moreover have "nrows (gradient_G c g) =
     node_count (staggered_grid Axis_x g) + node_count (staggered_grid Axis_y g) +
     node_count (staggered_grid Axis_z g)"
    by (simp add: shape staggered_count_blocks)
  ultimately show ?thesis by blast
qed

theorem gradient_rows_match_samples_witness:
  "fd_grad toy_collaborators = fd_grad_spec \<and>
   in_grid (staggered_grid Axis_y two_points_grid) 1 2 3 \<and>
   block_offset two_points_grid Axis_y + grid_index (staggered_grid Axis_y two_points_grid) 1 2 3 = 19693 \<and>
   grid_index two_points_grid 1 2 3 = 3287 \<and> forward_index two_points_grid Axis_y 1 2 3 = 3349 \<and>
   nrows (gradient_G toy_collaborators two_points_grid) = 48274 \<and>
   ncols (gradient_G toy_collaborators two_points_grid) = 16864 \<and>
   coeff (gradient_G toy_collaborators two_points_grid) 19693 3287 = - 1 \<and>
   coeff (gradient_G toy_collaborators two_points_grid) 19693 3349 = 1 \<and>
   coeff (gradient_G toy_collaborators two_points_grid) 19693 3288 = 0 \<and>
   length (sample_v toy_collaborators two_points_grid two_points unit_normals) = 48274"
proof -
  have f: "fd_grad toy_collaborators = fd_grad_spec" by (simp add: toy_collaborators_def)
  have i: "in_grid (staggered_grid Axis_y two_points_grid) 1 2 3"
    by (simp add: in_grid_def two_points_grid_def)
  have r: "block_offset two_points_grid Axis_y + grid_index (staggered_grid Axis_y two_points_grid) 1 2 3 = 19693"
    by (simp add: node_count_def grid_index_def ind_def two_points_grid_def)
  have lo: "grid_index two_points_grid 1 2 3 = 3287"
    by (simp add: grid_index_def ind_def two_points_grid_def)
  have hi: "forward_index two_points_grid Axis_y 1 2 3 = 3349"
    by (simp add: grid_index_def ind_def two_points_grid_def)
  note t = gradient_rows_match_samples [of toy_collaborators two_points_grid two_points unit_normals]
  have nr: "nrows (gradient_G toy_collaborators two_points_grid) = 48274"
    using t [THEN conjunct1] by (simp add: two_points_grid_def)
  have nc: "ncols (gradient_G toy_collaborators two_points_grid) = 16864"
    using t [THEN conjunct2, THEN conjunct1] by (simp add: two_points_grid_def)
  have lv: "length (sample_v toy_collaborators two_points_grid two_points unit_normals) = 48274"
    using t [THEN conjunct2, THEN conjunct2, THEN conjunct1] by (simp only: nr)
  from t f i have "forward_difference_row (gradient_G toy_collaborators two_points_grid)
      (grid_h two_points_grid)
      (block_offset two_points_grid Axis_y + grid_index (staggered_grid Axis_y two_points_grid) 1 2 3)
      (grid_index two_points_grid 1 2 3) (forward_index two_points_grid Axis_y 1 2 3)"
    by blast
  then have d: "forward_difference_row (gradient_G toy_collaborators two_points_grid) 1 19693 3287 3349"
    by (simp only: r lo hi) (simp add: two_points_grid_def)
  have "coeff (gradient_G toy_collaborators two_points_grid) 19693 3287 = - 1"
    "coeff (gradient_G toy_collaborators two_points_grid) 19693 3349 = 1"
    "coeff (gradient_G toy_collaborators two_points_grid) 19693 3288 = 0"
    using d nc by (simp_all add: forward_difference_row_def)
  with f i r lo hi nr nc lv show ?thesis by blast
qed


subsection \<open>C5: the calibration\<close>

lemma mat_vec_shift:
  assumes "length x = ncols A" and "i < nrows A"
  shows "mat_vec A (map (\<lambda>a. a - s) x) ! i = mat_vec A x ! i - s * (\<Sum>j<ncols A. coeff A i j)"
proof -
  have "mat_vec A (map (\<lambda>a. a - s) x) ! i = (\<Sum>j<ncols A. coeff A i j * (x ! j - s))"
    using assms by (simp add: nth_mat_vec)
  also have "\<dots> = (\<Sum>j<ncols A. coeff A i j * x ! j) - (\<Sum>j<ncols A. coeff A i j * s)"
    by (simp add: right_diff_distrib sum_subtractf)
  also have "\<dots> = mat_vec A x ! i - s * (\<Sum>j<ncols A. coeff A i j)"
    using assms(2) by (simp add: nth_mat_vec sum_distrib_left mult.commute)
  finally show ?thesis .
qed

lemma sum_mat_vec_shift:
  assumes "length x = ncols A" and "\<forall>i<nrows A. (\<Sum>j<ncols A. coeff A i j) = 1"
  shows "sum_list (mat_vec A (map (\<lambda>a. a - s) x)) = sum_list (mat_vec A x) - real (nrows A) * s"
proof -
  have "sum_list (mat_vec A (map (\<lambda>a. a - s) x)) =
      (\<Sum>i<nrows A. mat_vec A (map (\<lambda>a. a - s) x) ! i)"
    by (simp add: sum_list_nth length_mat_vec)
  also have "\<dots> = (\<Sum>i<nrows A. mat_vec A x ! i - s)"
    using assms by (intro sum.cong) (simp_all add: mat_vec_shift)
  also have "\<dots> = (\<Sum>i<nrows A. mat_vec A x ! i) - real (nrows A) * s"
    by (simp add: sum_subtractf)
  also have "\<dots> = sum_list (mat_vec A x) - real (nrows A) * s"
    by (simp add: sum_list_nth length_mat_vec)
  finally show ?thesis .
qed



text \<open>The calibration removes whatever constant is added to the solution.\<close>

lemma calibration_absorbs_constant:
  assumes "P \<noteq> []" and "length g0 = node_count g"
    and "\<forall>p<length P. (\<Sum>j<node_count g. coeff (primary_W c g P) p j) = 1"
  shows "calibrated_g c g P (map (\<lambda>a. a - k) g0) = calibrated_g c g P g0"
proof -
  have n: "real (length P) \<noteq> 0" using assms(1) by simp
  have "sum_list (mat_vec (primary_W c g P) (map (\<lambda>a. a - k) g0)) =
      sum_list (mat_vec (primary_W c g P) g0) - real (length P) * k"
    using sum_mat_vec_shift [of g0 "primary_W c g P" k] assms(2,3)
    by (simp add: primary_W_shape)
  then have "iso_sigma c g P (map (\<lambda>a. a - k) g0) = iso_sigma c g P g0 - k"
    using n by (simp add: iso_sigma_def diff_divide_distrib)
  then show ?thesis by (simp add: calibrated_g_def)
qed


subsection \<open>C2: the solve step\<close>

lemma sum_setFromTriplets:
  "(\<Sum>c<n. setFromTriplets T r c) =
     sum_list (map (\<lambda>(r', c', w). if r' = r \<and> c' < n then w else 0) T)"
proof (induction T)
  case Nil
  then show ?case by (simp add: setFromTriplets_def)
next
  case (Cons t T)
  obtain r' c' w where t: "t = (r', c', w)" by (cases t)
  have "(\<Sum>c<n. if r' = r \<and> c' = c then w else 0) = (if r' = r \<and> c' < n then w else 0)"
  proof (cases "r' = r")
    case True
    have "(\<Sum>c<n. if c' = c then w else 0) = (if c' \<in> {..<n} then w else 0)"
      by (rule sum.delta') simp
    with True show ?thesis by simp
  next
    case False
    then show ?thesis by simp
  qed
  then show ?case
    by (simp add: t setFromTriplets_Cons sum.distrib Cons.IH)
qed

lemma difference_rows_row_sum:
  "\<forall>p \<in> set ps. lo p < n \<and> hi p < n \<Longrightarrow>
     sum_list (map (\<lambda>(r', c', w). if r' = r \<and> c' < n then w else 0)
       (difference_rows f lo hi h ps)) = 0"
  by (induction ps) (simp_all add: difference_rows_def)

lemma Suc_less_pred: "i < a - 1 \<Longrightarrow> i < a \<and> Suc i < a"
  by arith

lemma fd_grad_spec_row_sum: "(\<Sum>c<nx * ny * nz. fd_grad_spec nx ny nz h r c) = 0"
proof -
  have x: "\<forall>p \<in> set (subscripts (nx - 1) ny nz).
      (case p of (i, j, k) \<Rightarrow> ind nx ny i j k) < nx * ny * nz \<and>
      (case p of (i, j, k) \<Rightarrow> ind nx ny (Suc i) j k) < nx * ny * nz"
    by (auto simp: set_subscripts dest!: Suc_less_pred intro!: ind_less)
  have y: "\<forall>p \<in> set (subscripts nx (ny - 1) nz).
      (case p of (i, j, k) \<Rightarrow> ind nx ny i j k) < nx * ny * nz \<and>
      (case p of (i, j, k) \<Rightarrow> ind nx ny i (Suc j) k) < nx * ny * nz"
    by (auto simp: set_subscripts dest!: Suc_less_pred intro!: ind_less)
  have z: "\<forall>p \<in> set (subscripts nx ny (nz - 1)).
      (case p of (i, j, k) \<Rightarrow> ind nx ny i j k) < nx * ny * nz \<and>
      (case p of (i, j, k) \<Rightarrow> ind nx ny i j (Suc k)) < nx * ny * nz"
    by (auto simp: set_subscripts dest!: Suc_less_pred intro!: ind_less)
  show ?thesis
    unfolding fd_grad_spec_def sum_setFromTriplets fd_grad_triplets_blocks
    by (simp only: map_append sum_list_append difference_rows_row_sum [OF x]
        difference_rows_row_sum [OF y] difference_rows_row_sum [OF z] add_0)
qed

text \<open>
  The gradient operator of the specification does not see a constant: every row holds
  \<open>-1/h\<close> and \<open>+1/h\<close> once, so a field and the field shifted by a constant have the
  same image and the same residual.
\<close>

lemma gradient_ignores_constant:
  assumes "fd_grad c = fd_grad_spec" and "length g0 = node_count g"
  shows "mat_vec (gradient_G c g) (map (\<lambda>a. a - s) g0) = mat_vec (gradient_G c g) g0"
proof (rule nth_equalityI)
  show "length (mat_vec (gradient_G c g) (map (\<lambda>a. a - s) g0)) =
      length (mat_vec (gradient_G c g) g0)"
    by (simp add: length_mat_vec)
next
  fix i assume "i < length (mat_vec (gradient_G c g) (map (\<lambda>a. a - s) g0))"
  then have i: "i < nrows (gradient_G c g)" by (simp add: length_mat_vec)
  have l: "length g0 = ncols (gradient_G c g)" by (simp add: assms(2) gradient_G_shape)
  have "(\<Sum>j<ncols (gradient_G c g). coeff (gradient_G c g) i j) = 0"
    using fd_grad_spec_row_sum [of "grid_nx g" "grid_ny g" "grid_nz g" "grid_h g" i]
    by (simp add: gradient_G_def filled_def assms(1) node_count_def)
  with mat_vec_shift [OF l i, of s]
  show "mat_vec (gradient_G c g) (map (\<lambda>a. a - s) g0) ! i = mat_vec (gradient_G c g) g0 ! i"
    by simp
qed

text \<open>
  Claim C2. The vector \<open>g\<close> is what the solver returns for the matrix
  \<open>transpose G * G\<close> and the right-hand side \<open>transpose G * v\<close>. When the solver has
  converged, that is when its result satisfies the system it was given, \<open>g\<close> satisfies
  the normal equations and no vector with one entry per grid node has a smaller
  residual \<open>squaredNorm (G * g - v)\<close>. The solution is determined up to a constant
  only: with the gradient operator of the specification, \<open>G\<close> maps \<open>g\<close> and \<open>g\<close> minus
  a constant to the same vector. The solver's choice of the constant does not reach the
  result: when the rows of \<open>W\<close> sum to 1, the calibration yields the same field for \<open>g\<close>
  and for \<open>g\<close> minus a constant.
\<close>

theorem solve_normal_equations:
  assumes conv: "mat_vec (normal_matrix c g) (potential_g c g P N) = normal_rhs c g P N"
    and lg: "length (potential_g c g P N) = node_count g"
  shows "potential_g c g P N =
      fst (solver c (mat_mul (transpose_sm (gradient_G c g)) (gradient_G c g))
                    (mat_vec (transpose_sm (gradient_G c g)) (sample_v c g P N))) \<and>
    mat_vec (mat_mul (transpose_sm (gradient_G c g)) (gradient_G c g)) (potential_g c g P N) =
      mat_vec (transpose_sm (gradient_G c g)) (sample_v c g P N) \<and>
    (\<forall>g'. length g' = node_count g \<longrightarrow>
       squaredNorm (vsub (mat_vec (gradient_G c g) (potential_g c g P N)) (sample_v c g P N))
       \<le> squaredNorm (vsub (mat_vec (gradient_G c g) g') (sample_v c g P N))) \<and>
    (fd_grad c = fd_grad_spec \<longrightarrow>
       (\<forall>s. mat_vec (gradient_G c g) (map (\<lambda>a. a - s) (potential_g c g P N)) =
            mat_vec (gradient_G c g) (potential_g c g P N))) \<and>
    (P \<noteq> [] \<and> (\<forall>p<length P. (\<Sum>j<node_count g. coeff (primary_W c g P) p j) = 1) \<longrightarrow>
       (\<forall>s. calibrated_g c g P (map (\<lambda>a. a - s) (potential_g c g P N)) =
            calibrated_g c g P (potential_g c g P N)))"
proof -
  have call: "potential_g c g P N =
      fst (solver c (mat_mul (transpose_sm (gradient_G c g)) (gradient_G c g))
                    (mat_vec (transpose_sm (gradient_G c g)) (sample_v c g P N)))"
    by (simp add: potential_g_def normal_matrix_def normal_rhs_def)
  have ne: "mat_vec (mat_mul (transpose_sm (gradient_G c g)) (gradient_G c g)) (potential_g c g P N) =
      mat_vec (transpose_sm (gradient_G c g)) (sample_v c g P N)"
    using conv by (simp add: normal_matrix_def normal_rhs_def)
  have least: "squaredNorm (vsub (mat_vec (gradient_G c g) (potential_g c g P N)) (sample_v c g P N))
       \<le> squaredNorm (vsub (mat_vec (gradient_G c g) g') (sample_v c g P N))"
    if "length g' = node_count g" for g'
    by (rule normal_equations_minimise [OF ne])
      (simp_all add: lg that gradient_G_shape length_sample_v)
  have const: "mat_vec (gradient_G c g) (map (\<lambda>a. a - s) (potential_g c g P N)) =
      mat_vec (gradient_G c g) (potential_g c g P N)" if "fd_grad c = fd_grad_spec" for s
    using that lg by (rule gradient_ignores_constant)
  have calib: "calibrated_g c g P (map (\<lambda>a. a - s) (potential_g c g P N)) =
      calibrated_g c g P (potential_g c g P N)"
    if "P \<noteq> [] \<and> (\<forall>p<length P. (\<Sum>j<node_count g. coeff (primary_W c g P) p j) = 1)" for s
    using that lg by (intro calibration_absorbs_constant) simp_all
  from call ne least const calib show ?thesis by blast
qed


theorem solve_normal_equations_witness:
  "mat_vec (normal_matrix toy_collaborators toy_grid)
     (potential_g toy_collaborators toy_grid toy_P toy_N) =
     normal_rhs toy_collaborators toy_grid toy_P toy_N \<and>
   length (potential_g toy_collaborators toy_grid toy_P toy_N) = node_count toy_grid \<and>
   potential_g toy_collaborators toy_grid toy_P toy_N = [0, 1] \<and>
   squaredNorm (vsub (mat_vec (gradient_G toy_collaborators toy_grid)
        (potential_g toy_collaborators toy_grid toy_P toy_N))
        (sample_v toy_collaborators toy_grid toy_P toy_N))
     \<le> squaredNorm (vsub (mat_vec (gradient_G toy_collaborators toy_grid) [3, 5])
        (sample_v toy_collaborators toy_grid toy_P toy_N)) \<and>
   fd_grad toy_collaborators = fd_grad_spec \<and>
   mat_vec (gradient_G toy_collaborators toy_grid) [0 - 2, 1 - 2] =
     mat_vec (gradient_G toy_collaborators toy_grid) [0, 1] \<and>
   toy_P \<noteq> [] \<and>
   (\<Sum>j<node_count toy_grid. coeff (primary_W toy_collaborators toy_grid toy_P) 0 j) = 1 \<and>
   calibrated_g toy_collaborators toy_grid toy_P [0 - 2, 1 - 2] =
     calibrated_g toy_collaborators toy_grid toy_P [0, 1]"
proof -
  have l: "length (potential_g toy_collaborators toy_grid toy_P toy_N) = node_count toy_grid"
    unfolding toy_g by (simp add: node_count_def toy_grid_def)
  have l': "length [3, 5 :: real] = node_count toy_grid"
    by (simp add: node_count_def toy_grid_def)
  have f: "fd_grad toy_collaborators = fd_grad_spec" by (simp add: toy_collaborators_def)
  have p: "toy_P \<noteq> []" by (simp add: toy_P_def)
  have r: "(\<Sum>j<node_count toy_grid. coeff (primary_W toy_collaborators toy_grid toy_P) 0 j) = 1"
    using toy_rows by (simp add: toy_P_def)
  note t = solve_normal_equations [OF toy_conv l]
  from t l' have m:
    "squaredNorm (vsub (mat_vec (gradient_G toy_collaborators toy_grid)
        (potential_g toy_collaborators toy_grid toy_P toy_N))
        (sample_v toy_collaborators toy_grid toy_P toy_N))
     \<le> squaredNorm (vsub (mat_vec (gradient_G toy_collaborators toy_grid) [3, 5])
        (sample_v toy_collaborators toy_grid toy_P toy_N))"
    by blast
  from t f have "mat_vec (gradient_G toy_collaborators toy_grid)
        (map (\<lambda>a. a - 2) (potential_g toy_collaborators toy_grid toy_P toy_N)) =
      mat_vec (gradient_G toy_collaborators toy_grid)
        (potential_g toy_collaborators toy_grid toy_P toy_N)"
    by blast
  then have s: "mat_vec (gradient_G toy_collaborators toy_grid) [0 - 2, 1 - 2] =
     mat_vec (gradient_G toy_collaborators toy_grid) [0, 1]"
    by (simp add: toy_g)
  from t p toy_rows have "calibrated_g toy_collaborators toy_grid toy_P
        (map (\<lambda>a. a - 2) (potential_g toy_collaborators toy_grid toy_P toy_N)) =
      calibrated_g toy_collaborators toy_grid toy_P
        (potential_g toy_collaborators toy_grid toy_P toy_N)"
    by blast
  then have k: "calibrated_g toy_collaborators toy_grid toy_P [0 - 2, 1 - 2] =
     calibrated_g toy_collaborators toy_grid toy_P [0, 1]"
    by (simp add: toy_g)
  from toy_conv l toy_g m f s p r k show ?thesis by blast
qed

section \<open>Properties of the whole function\<close>

lemma psr_Returns:
  assumes "grid_of (arg_P s) = Returns g" and "length (arg_N s) = length (arg_P s)"
    and "length (potential_g c g (arg_P s) (arg_N s)) = node_count g"
  shows "poisson_surface_reconstruction c s =
    Returns (s\<lparr>arg_V := fst (marching_cubes c
                 (calibrated_g c g (arg_P s) (potential_g c g (arg_P s) (arg_N s)))
                 (node_positions g (replicate (node_count g) (0, 0, 0)))
                 (grid_nx g) (grid_ny g) (grid_nz g) (arg_V s, arg_F s)),
               arg_F := snd (marching_cubes c
                 (calibrated_g c g (arg_P s) (potential_g c g (arg_P s) (arg_N s)))
                 (node_positions g (replicate (node_count g) (0, 0, 0)))
                 (grid_nx g) (grid_ny g) (grid_nz g) (arg_V s, arg_F s))\<rparr>)"
  using assms by (simp add: poisson_surface_reconstruction_def Let_def)






lemma solver_update_stages:
  "normal_matrix (c\<lparr>solver := f\<rparr>) g = normal_matrix c g"
  "normal_rhs (c\<lparr>solver := f\<rparr>) g P N = normal_rhs c g P N"
  "calibrated_g (c\<lparr>solver := f\<rparr>) g P g0 = calibrated_g c g P g0"
  by (simp_all add: normal_matrix_def normal_rhs_def gradient_G_def sample_v_def staggered_Wx_def
      staggered_Wy_def staggered_Wz_def calibrated_g_def iso_sigma_def primary_W_def)

lemma potential_g_status:
  "potential_g (c\<lparr>solver := (\<lambda>A b. (fst (solver c A b), info A b))\<rparr>) g P N = potential_g c g P N"
  by (simp add: potential_g_def solver_update_stages)

lemma psr_status:
  "poisson_surface_reconstruction (c\<lparr>solver := (\<lambda>A b. (fst (solver c A b), info A b))\<rparr>) s =
   poisson_surface_reconstruction c s"
  by (cases "grid_of (arg_P s)")
    (simp_all add: poisson_surface_reconstruction_def Let_def potential_g_status
      solver_update_stages)

lemma stalled_solver:
  "solver stalled_collaborators A b = (replicate (ncols A) 0, NoConvergence)"
  by (simp add: stalled_collaborators_def toy_collaborators_def)

lemma stalled_marching_cubes: "marching_cubes stalled_collaborators f x a b d m = one_triangle"
  by (simp add: stalled_collaborators_def toy_collaborators_def)

lemma two_points_call_args:
  "arg_P two_points_call = two_points" "arg_N two_points_call = unit_normals"
  "arg_V two_points_call = []" "arg_F two_points_call = []"
  by (simp_all add: two_points_call_def)

lemma two_points_call_grid: "grid_of (arg_P two_points_call) = Returns two_points_grid"
  by (simp add: two_points_call_args grid_of_two_points)

lemma two_points_call_rows: "length (arg_N two_points_call) = length (arg_P two_points_call)"
  by (simp add: two_points_call_args two_points_def unit_normals_def)

lemma stalled_length:
  "length (potential_g stalled_collaborators two_points_grid (arg_P two_points_call)
     (arg_N two_points_call)) = node_count two_points_grid"
  by (simp add: potential_g_def stalled_solver ncols_normal_matrix)





subsection \<open>C6: a solver that does not converge\<close>

text \<open>
  Claim C6, as amended. The function never reads the status of the solver. Whenever the
  grid is built, \<open>N\<close> has as many rows as \<open>P\<close> and the solver returns one value per grid
  node, the function returns normally with \<open>V\<close> and \<open>F\<close> set by the extraction from the
  calibrated vector of the solver, and the outcome is the same whatever status the
  solver reports: a solve that stops at its iteration cap is not reported, and its last
  iterate is calibrated and extracted like a converged one.
\<close>

theorem solver_status_never_read:
  assumes "grid_of (arg_P s) = Returns g" and "length (arg_N s) = length (arg_P s)"
    and "length (fst (solver c (normal_matrix c g) (normal_rhs c g (arg_P s) (arg_N s)))) =
      node_count g"
  shows "poisson_surface_reconstruction c s =
      Returns (s\<lparr>arg_V := fst (marching_cubes c
                 (calibrated_g c g (arg_P s)
                    (fst (solver c (normal_matrix c g) (normal_rhs c g (arg_P s) (arg_N s)))))
                 (node_positions g (replicate (node_count g) (0, 0, 0)))
                 (grid_nx g) (grid_ny g) (grid_nz g) (arg_V s, arg_F s)),
               arg_F := snd (marching_cubes c
                 (calibrated_g c g (arg_P s)
                    (fst (solver c (normal_matrix c g) (normal_rhs c g (arg_P s) (arg_N s)))))
                 (node_positions g (replicate (node_count g) (0, 0, 0)))
                 (grid_nx g) (grid_ny g) (grid_nz g) (arg_V s, arg_F s))\<rparr>) \<and>
    (\<forall>info. poisson_surface_reconstruction
        (c\<lparr>solver := (\<lambda>A b. (fst (solver c A b), info A b))\<rparr>) s =
      poisson_surface_reconstruction c s)"
proof -
  have l: "length (potential_g c g (arg_P s) (arg_N s)) = node_count g"
    using assms(3) by (simp add: potential_g_def)
  from psr_Returns [OF assms(1,2) l] psr_status show ?thesis
    by (simp add: potential_g_def)
qed

theorem solver_status_never_read_witness:
  "grid_of (arg_P two_points_call) = Returns two_points_grid \<and>
   length (arg_N two_points_call) = length (arg_P two_points_call) \<and>
   length (fst (solver stalled_collaborators (normal_matrix stalled_collaborators two_points_grid)
     (normal_rhs stalled_collaborators two_points_grid (arg_P two_points_call)
        (arg_N two_points_call)))) = node_count two_points_grid \<and>
   poisson_surface_reconstruction stalled_collaborators two_points_call =
     Returns (two_points_call\<lparr>arg_V := fst one_triangle, arg_F := snd one_triangle\<rparr>) \<and>
   poisson_surface_reconstruction
     (stalled_collaborators\<lparr>solver := (\<lambda>A b. (replicate (ncols A) 0, Success))\<rparr>)
     two_points_call =
   poisson_surface_reconstruction stalled_collaborators two_points_call"
proof -
  have l: "length (fst (solver stalled_collaborators (normal_matrix stalled_collaborators two_points_grid)
     (normal_rhs stalled_collaborators two_points_grid (arg_P two_points_call)
        (arg_N two_points_call)))) = node_count two_points_grid"
    by (simp add: stalled_solver ncols_normal_matrix)
  note t = solver_status_never_read [OF two_points_call_grid two_points_call_rows l]
  have r: "poisson_surface_reconstruction stalled_collaborators two_points_call =
     Returns (two_points_call\<lparr>arg_V := fst one_triangle, arg_F := snd one_triangle\<rparr>)"
    using t [THEN conjunct1] by (simp add: stalled_marching_cubes)
  have "poisson_surface_reconstruction
     (stalled_collaborators\<lparr>solver := (\<lambda>A b. (fst (solver stalled_collaborators A b), Success))\<rparr>)
     two_points_call =
   poisson_surface_reconstruction stalled_collaborators two_points_call"
    by (rule t [THEN conjunct2, rule_format, of "\<lambda>A b. Success"])
  then have i: "poisson_surface_reconstruction
     (stalled_collaborators\<lparr>solver := (\<lambda>A b. (replicate (ncols A) 0, Success))\<rparr>)
     two_points_call =
   poisson_surface_reconstruction stalled_collaborators two_points_call"
    by (simp add: stalled_solver)
  from two_points_call_grid two_points_call_rows l r i show ?thesis by blast
qed

text \<open>
  The claim as it was stated fails for the two points with a solver that returns its
  initial guess and reports \<^verbatim>\<open>NoConvergence\<close>: the call returns normally with the mesh
  of the extraction.
\<close>

theorem solver_failure_counterexample:
  "snd (solver stalled_collaborators (normal_matrix stalled_collaborators two_points_grid)
         (normal_rhs stalled_collaborators two_points_grid two_points unit_normals)) =
     NoConvergence \<and>
   poisson_surface_reconstruction stalled_collaborators two_points_call =
     Returns (two_points_call\<lparr>arg_V := fst one_triangle, arg_F := snd one_triangle\<rparr>)"
  using psr_Returns [OF two_points_call_grid two_points_call_rows stalled_length]
  by (simp add: stalled_solver stalled_marching_cubes)


subsection \<open>C7: invalid inputs\<close>





subsection \<open>C10: inputs and outputs\<close>




end
